theory Spec2Isabelle
  imports Main
begin

section \<open>Values exchanged between the page, the background script and the server\<close>

text \<open>
  The JavaScript values that the fields \<open>data\<close> and \<open>translatedData\<close> carry: a string
  (a data URL), \<open>null\<close>, or \<open>undefined\<close> for a field that is absent. Other JSON values
  (numbers, booleans, objects) are outside the protocol and outside this model.
\<close>

datatype jsval = JUndefined | JNull | JString string

text \<open>JavaScript's truthiness, as the test \<open>imgElement && translatedData\<close> applies it.\<close>

fun truthy :: "jsval \<Rightarrow> bool" where
  "truthy JUndefined = False"
| "truthy JNull = False"
| "truthy (JString s) = (s \<noteq> [])"

text \<open>The string an assignment to \<open>img.src\<close> stores.\<close>

fun ToString :: "jsval \<Rightarrow> string" where
  "ToString JUndefined = ''undefined''"
| "ToString JNull = ''null''"
| "ToString (JString s) = s"

text \<open>An Image Descriptor \<open>{ id, data }\<close> and a Processed Result \<open>{ id, translatedData }\<close>.\<close>

record descriptor =
  d_id :: string
  data :: jsval

record processed_result =
  r_id :: string
  translatedData :: jsval

text \<open>The tagged messages of \<open>chrome.runtime.sendMessage\<close> and \<open>chrome.tabs.sendMessage\<close>.\<close>

datatype message =
    START_TRANSLATION
  | IMAGES_FOUND "descriptor list"
  | REPLACE_IMAGES "processed_result list"

text \<open>
  An awaited promise, at its settlement: it resolved with a value, or it rejected and the
  \<open>await\<close> throws.
\<close>

datatype js_error = NetworkError | BodyError | SyntaxError

datatype 'a promise = Resolved 'a | Rejected js_error

section \<open>background.js: the Relay\<close>

text \<open>
  The response of \<open>fetch\<close>: its HTTP status and what \<open>response.json()\<close> settles to
  (it rejects when the body is not JSON). \<open>fetch\<close> itself rejects only on a network
  error; a response with a status outside 200..299 resolves like any other. A body that
  is JSON is taken to be a sequence of Processed Results, as the Relay takes it.
\<close>

record server_response =
  status :: nat
  json :: "processed_result list promise"

type_synonym server = "descriptor list \<Rightarrow> server_response promise"

text \<open>What the Relay does to the outside: the POST request and the message to the tab.\<close>

datatype relay_event =
    HttpPost string "descriptor list"
  | TabsSendMessage nat message

definition process_images_url :: string where
  "process_images_url = ''http://localhost:5000/process_images''"

definition sendImagesToPythonServer :: "server \<Rightarrow> descriptor list \<Rightarrow> nat \<Rightarrow> relay_event list" where
  "sendImagesToPythonServer fetch_post images tabId =
     (if length images = 0 then []
      else HttpPost process_images_url images #
        (case fetch_post images of
           Rejected err \<Rightarrow> []
         | Resolved response \<Rightarrow>
             (case json response of
                Rejected err \<Rightarrow> []
              | Resolved translatedImages \<Rightarrow>
                  [TabsSendMessage tabId (REPLACE_IMAGES translatedImages)])))"

text \<open>The listener of the background script: only \<open>IMAGES_FOUND\<close> starts the Relay.\<close>

definition background_onMessage :: "server \<Rightarrow> message \<Rightarrow> nat \<Rightarrow> relay_event list" where
  "background_onMessage fetch_post request tabId =
     (case request of
        IMAGES_FOUND images \<Rightarrow> sendImagesToPythonServer fetch_post images tabId
      | _ \<Rightarrow> [])"

section \<open>content.js: the page, the Scanner and the DOM Updater\<close>

text \<open>
  A handler of the content script is modelled as one step on the page: it runs to its end
  on the state it starts with, and every promise it awaits settles. What the page or
  another handler does while an \<open>await\<close> is pending is outside this model.
\<close>

text \<open>
  An image element, with the three properties the content script reads or writes.
  \<open>src\<close> holds the string last assigned to it (the page does not reload it here).
\<close>

record img_element =
  src :: string
  naturalWidth :: nat
  naturalHeight :: nat

text \<open>
  Elements are objects with identity: the page keeps them in a store, by reference. The
  document lists the references \<open>document.querySelectorAll("img")\<close> returns, in order;
  an element removed from the document stays in the store, where a reference of the
  global \<open>imageReferenceMap\<close> may still point to it. The map holds the own properties
  of the object \<open>imageReferenceMap\<close>; a key of \<open>Object.prototype\<close> resolves to an
  object that is no element, which the store does not hold.
\<close>

type_synonym elem_ref = nat

record page =
  elements :: "elem_ref \<Rightarrow> img_element"
  document :: "elem_ref list"
  imageReferenceMap :: "string \<rightharpoonup> elem_ref"

text \<open>
  What the page sees of the network and of \<open>FileReader\<close>: \<open>fetch(src)\<close> settles to a
  response or rejects, \<open>response.blob()\<close> likewise, and \<open>reader.result\<close> is, when
  \<open>loadend\<close> fires, the data URL, or \<open>null\<close> after a read error. \<open>fetch\<close>
  resolves whatever the HTTP status is; \<open>response.ok\<close> tells whether it is in 200..299,
  and \<open>convertImageToBase64\<close> does not read it.
\<close>

type_synonym blob = string

record img_response =
  ok :: bool
  blob :: "blob promise"

record page_env =
  fetch :: "string \<Rightarrow> img_response promise"
  reader_result :: "blob \<Rightarrow> jsval"

definition convertImageToBase64 :: "page_env \<Rightarrow> string \<Rightarrow> jsval promise" where
  "convertImageToBase64 env s =
     (case fetch env s of
        Rejected err \<Rightarrow> Rejected err
      | Resolved response \<Rightarrow>
          (case blob response of
             Rejected err \<Rightarrow> Rejected err
           | Resolved b \<Rightarrow> Resolved (reader_result env b)))"

text \<open>The template literal \<open>`img-${i}`\<close>: the index in decimal digits.\<close>

definition digit_chars :: string where
  "digit_chars = ''0123456789''"

fun string_of_nat :: "nat \<Rightarrow> string" where
  "string_of_nat n =
     (if n < 10 then [digit_chars ! n]
      else string_of_nat (n div 10) @ [digit_chars ! (n mod 10)])"

declare string_of_nat.simps [simp del]

definition img_id :: "nat \<Rightarrow> string" where
  "img_id i = ''img-'' @ string_of_nat i"

text \<open>
  The loop of \<open>collectImageData\<close>, from index \<open>i\<close> on. Its state is the reference map
  and the array \<open>results\<close>. The map entry is written before the conversion is awaited;
  the \<open>catch\<close> block only logs.
\<close>

function collect_loop ::
  "page_env \<Rightarrow> (elem_ref \<Rightarrow> img_element) \<Rightarrow> elem_ref list \<Rightarrow> nat \<Rightarrow>
   (string \<rightharpoonup> elem_ref) \<times> descriptor list \<Rightarrow> (string \<rightharpoonup> elem_ref) \<times> descriptor list" where
  "collect_loop env h imgElements i (m, results) =
     (if i < length imgElements then
        (let img = imgElements ! i in
         if naturalWidth (h img) \<le> 50 \<or> naturalHeight (h img) \<le> 50
         then collect_loop env h imgElements (Suc i) (m, results)
         else
           (case convertImageToBase64 env (src (h img)) of
              Resolved base64 \<Rightarrow>
                collect_loop env h imgElements (Suc i)
                  (m(img_id i \<mapsto> img), results @ [\<lparr>d_id = img_id i, data = base64\<rparr>])
            | Rejected err \<Rightarrow>
                collect_loop env h imgElements (Suc i) (m(img_id i \<mapsto> img), results)))
      else (m, results))"
  by pat_completeness auto
termination
  by (relation "measure (\<lambda>(env, h, imgElements, i, st). length imgElements - i)") auto

declare collect_loop.simps [simp del]

text \<open>
  \<open>collectImageData\<close> returns the page, with the map as the loop left it, and the
  messages it passed to \<open>chrome.runtime.sendMessage\<close>.
\<close>

definition collectImageData :: "page_env \<Rightarrow> page \<Rightarrow> page \<times> message list" where
  "collectImageData env p =
     (case collect_loop env (elements p) (document p) 0 (imageReferenceMap p, []) of
        (m, results) \<Rightarrow> (p\<lparr>imageReferenceMap := m\<rparr>, [IMAGES_FOUND results]))"

text \<open>
  One step of the \<open>forEach\<close> of \<open>replaceImages\<close>, then the whole of it. Only the
  store changes.
\<close>

definition replace_item ::
  "(string \<rightharpoonup> elem_ref) \<Rightarrow> processed_result \<Rightarrow> (elem_ref \<Rightarrow> img_element) \<Rightarrow> (elem_ref \<Rightarrow> img_element)" where
  "replace_item m item h =
     (case m (r_id item) of
        None \<Rightarrow> h
      | Some imgElement \<Rightarrow>
          if truthy (translatedData item)
          then h(imgElement := (h imgElement)\<lparr>src := ToString (translatedData item)\<rparr>)
          else h)"

definition replaceImages :: "processed_result list \<Rightarrow> page \<Rightarrow> page" where
  "replaceImages translatedImages p =
     p\<lparr>elements := fold (replace_item (imageReferenceMap p)) translatedImages (elements p)\<rparr>"

text \<open>The listener of the content script.\<close>

definition content_onMessage :: "page_env \<Rightarrow> message \<Rightarrow> page \<Rightarrow> page \<times> message list" where
  "content_onMessage env request p =
     (case request of
        START_TRANSLATION \<Rightarrow> collectImageData env p
      | REPLACE_IMAGES translatedImages \<Rightarrow> (replaceImages translatedImages p, [])
      | IMAGES_FOUND images \<Rightarrow> (p, []))"

section \<open>Notions the statements use\<close>

text \<open>How an awaited conversion ended, and the value it resolved with.\<close>

fun is_resolved :: "'a promise \<Rightarrow> bool" where
  "is_resolved (Resolved v) = True"
| "is_resolved (Rejected err) = False"

fun resolved_value :: "jsval promise \<Rightarrow> jsval" where
  "resolved_value (Resolved v) = v"
| "resolved_value (Rejected err) = JUndefined"

text \<open>
  An image qualifies when its width and its height both exceed 50; the loop tests the
  negation, \<open>naturalWidth <= 50 || naturalHeight <= 50\<close>, and skips.
\<close>

definition above_threshold :: "img_element \<Rightarrow> bool" where
  "above_threshold img = (50 < naturalWidth img \<and> 50 < naturalHeight img)"

definition converts :: "page_env \<Rightarrow> img_element \<Rightarrow> bool" where
  "converts env img = is_resolved (convertImageToBase64 env (src img))"

text \<open>The descriptor of the image at index \<open>j\<close> of the document, once it converted.\<close>

definition descriptor_at ::
  "page_env \<Rightarrow> (elem_ref \<Rightarrow> img_element) \<Rightarrow> elem_ref list \<Rightarrow> nat \<Rightarrow> descriptor" where
  "descriptor_at env h imgs j =
     \<lparr>d_id = img_id j, data = resolved_value (convertImageToBase64 env (src (h (imgs ! j))))\<rparr>"

text \<open>
  The indices of the document, in ascending order, whose image is above the threshold
  and whose conversion resolved.
\<close>

definition scanned_indices :: "page_env \<Rightarrow> page \<Rightarrow> nat list" where
  "scanned_indices env p =
     filter (\<lambda>i. above_threshold (elements p (document p ! i)) \<and>
                 converts env (elements p (document p ! i)))
       [0..<length (document p)]"

text \<open>
  The string that a sequence of Processed Results assigns last to the element \<open>el\<close>,
  if it assigns any: a later entry for the same element overwrites an earlier one.
\<close>

fun last_write ::
  "(string \<rightharpoonup> elem_ref) \<Rightarrow> processed_result list \<Rightarrow> elem_ref \<Rightarrow> string option" where
  "last_write m [] el = None"
| "last_write m (item # items) el =
     (case last_write m items el of
        Some s \<Rightarrow> Some s
      | None \<Rightarrow>
          if m (r_id item) = Some el \<and> truthy (translatedData item)
          then Some (ToString (translatedData item)) else None)"

section \<open>Example inputs\<close>

text \<open>
  The document of the specification's example: three images of 100 x 100, 30 x 30 and
  60 x 60, on a page whose content script has just been loaded (the map is empty).
\<close>

definition example_elements :: "elem_ref \<Rightarrow> img_element" where
  "example_elements el =
     (if el = 0 then \<lparr>src = ''a.png'', naturalWidth = 100, naturalHeight = 100\<rparr>
      else if el = 1 then \<lparr>src = ''b.png'', naturalWidth = 30, naturalHeight = 30\<rparr>
      else \<lparr>src = ''c.png'', naturalWidth = 60, naturalHeight = 60\<rparr>)"

definition example_page :: page where
  "example_page =
     \<lparr>elements = example_elements, document = [0, 1, 2], imageReferenceMap = Map.empty\<rparr>"

definition data_url :: "blob \<Rightarrow> string" where
  "data_url b = ''data:image/png;base64,'' @ b"

text \<open>
  Four environments: every image loads and encodes; the fetch of one source is
  rejected; \<open>FileReader\<close> cannot read the blob of one source; the server answers
  the fetch of one source with an error status and an error page.
\<close>

definition online :: page_env where
  "online =
     \<lparr>fetch = (\<lambda>s. Resolved \<lparr>ok = True, blob = Resolved s\<rparr>),
      reader_result = (\<lambda>b. JString (data_url b))\<rparr>"

definition offline_for :: "string \<Rightarrow> page_env" where
  "offline_for bad =
     \<lparr>fetch = (\<lambda>s. if s = bad then Rejected NetworkError else Resolved \<lparr>ok = True, blob = Resolved s\<rparr>),
      reader_result = (\<lambda>b. JString (data_url b))\<rparr>"

definition unreadable_for :: "string \<Rightarrow> page_env" where
  "unreadable_for bad =
     \<lparr>fetch = (\<lambda>s. Resolved \<lparr>ok = True, blob = Resolved s\<rparr>),
      reader_result = (\<lambda>b. if b = bad then JNull else JString (data_url b))\<rparr>"

definition forbidden_for :: "string \<Rightarrow> page_env" where
  "forbidden_for bad =
     \<lparr>fetch = (\<lambda>s. if s = bad then Resolved \<lparr>ok = False, blob = Resolved ''403 Forbidden''\<rparr>
                   else Resolved \<lparr>ok = True, blob = Resolved s\<rparr>),
      reader_result = (\<lambda>b. JString (data_url b))\<rparr>"

text \<open>
  The example page after one collection cycle, and the same page when a second cycle
  starts after the first two images have left the document.
\<close>

definition scanned_page :: page where
  "scanned_page = fst (collectImageData online example_page)"

definition second_cycle_page :: page where
  "second_cycle_page = scanned_page\<lparr>document := [2]\<rparr>"

text \<open>A server that answers with status 500 and a JSON body.\<close>

definition error_server :: server where
  "error_server images =
     Resolved \<lparr>status = 500,
               json = Resolved [\<lparr>r_id = ''img-0'', translatedData = JString ''X''\<rparr>]\<rparr>"

section \<open>Identifiers\<close>

text \<open>Two indices never share an identifier: the decimal digits of a number determine it.\<close>

lemma digit_chars_inj:
  assumes "a < 10" and "b < 10" and "digit_chars ! a = digit_chars ! b"
  shows "a = b"
proof -
  have d: "distinct digit_chars" by (simp add: digit_chars_def)
  have l: "length digit_chars = 10" by (simp add: digit_chars_def)
  from d l assms show ?thesis by (simp add: nth_eq_iff_index_eq)
qed

lemma string_of_nat_nonempty: "string_of_nat n \<noteq> []"
  by (subst string_of_nat.simps) simp

lemma string_of_nat_inj: "string_of_nat n = string_of_nat m \<Longrightarrow> n = m"
proof (induction n arbitrary: m rule: string_of_nat.induct)
  case (1 n)
  show ?case
  proof (cases "n < 10")
    case True
    note n = this
    show ?thesis
    proof (cases "m < 10")
      case True
      with n "1.prems" show ?thesis
        by (simp add: string_of_nat.simps [of n] string_of_nat.simps [of m] digit_chars_inj)
    next
      case False
      with n "1.prems" show ?thesis
        using string_of_nat_nonempty [of "m div 10"]
        by (simp add: string_of_nat.simps [of n] string_of_nat.simps [of m])
    qed
  next
    case False
    note n = this
    show ?thesis
    proof (cases "m < 10")
      case True
      with n "1.prems" show ?thesis
        using string_of_nat_nonempty [of "n div 10"]
        by (simp add: string_of_nat.simps [of n] string_of_nat.simps [of m])
    next
      case False
      with n "1.prems" have e: "string_of_nat (n div 10) = string_of_nat (m div 10)"
        and d: "digit_chars ! (n mod 10) = digit_chars ! (m mod 10)"
        by (simp_all add: string_of_nat.simps [of n] string_of_nat.simps [of m])
      from "1.IH" [OF n e] have q: "n div 10 = m div 10" .
      from d have r: "n mod 10 = m mod 10" by (simp add: digit_chars_inj)
      from q r show ?thesis by (metis div_mult_mod_eq)
    qed
  qed
qed

lemma img_id_inj: "img_id i = img_id j \<longleftrightarrow> i = j"
  by (auto simp: img_id_def dest: string_of_nat_inj)

lemma distinct_img_ids: "distinct js \<Longrightarrow> distinct (map img_id js)"
  by (simp add: distinct_map inj_on_def img_id_inj)

lemma img_id_0: "img_id 0 = ''img-0''"
  by (simp add: img_id_def string_of_nat.simps digit_chars_def)

lemma img_id_2: "img_id 2 = ''img-2''"
  by (simp add: img_id_def string_of_nat.simps digit_chars_def)

section \<open>The loop of the Scanner\<close>

text \<open>
  The array \<open>results\<close> grows by one descriptor for each index from \<open>i\<close> on whose image
  is above the threshold and converts, in the order of the document.
\<close>

lemma collect_loop_results:
  "snd (collect_loop env h imgs i (m, res)) =
     res @ map (descriptor_at env h imgs)
       (filter (\<lambda>j. above_threshold (h (imgs ! j)) \<and> converts env (h (imgs ! j)))
          [i..<length imgs])"
proof (induction env h imgs i "(m, res)" arbitrary: m res rule: collect_loop.induct)
  case (1 env h imgs i m res)
  show ?case
  proof (cases "i < length imgs")
    case False
    then show ?thesis by (simp add: collect_loop.simps [of env h imgs i])
  next
    case True
    note lt = this
    then have upt: "[i..<length imgs] = i # [Suc i..<length imgs]"
      by (simp add: upt_conv_Cons)
    show ?thesis
    proof (cases "naturalWidth (h (imgs ! i)) \<le> 50 \<or> naturalHeight (h (imgs ! i)) \<le> 50")
      case True
      then have na: "\<not> above_threshold (h (imgs ! i))"
        by (auto simp: above_threshold_def)
      from "1.hyps"(1) [OF lt refl True] lt True na show ?thesis
        by (simp add: collect_loop.simps [of env h imgs i] upt)
    next
      case False
      then have a: "above_threshold (h (imgs ! i))"
        by (auto simp: above_threshold_def)
      show ?thesis
      proof (cases "convertImageToBase64 env (src (h (imgs ! i)))")
        case (Resolved b)
        from "1.hyps"(2) [OF lt refl False Resolved] lt False a Resolved show ?thesis
          by (simp add: collect_loop.simps [of env h imgs i] upt converts_def descriptor_at_def)
      next
        case (Rejected e)
        from "1.hyps"(3) [OF lt refl False Rejected] lt False a Rejected show ?thesis
          by (simp add: collect_loop.simps [of env h imgs i] upt converts_def)
      qed
    qed
  qed
qed

text \<open>A key that is no identifier of an image above the threshold keeps its entry.\<close>

lemma collect_loop_map_other:
  "(\<And>j. i \<le> j \<Longrightarrow> j < length imgs \<Longrightarrow> above_threshold (h (imgs ! j)) \<Longrightarrow> k \<noteq> img_id j) \<Longrightarrow>
   fst (collect_loop env h imgs i (m, res)) k = m k"
proof (induction env h imgs i "(m, res)" arbitrary: m res rule: collect_loop.induct)
  case (1 env h imgs i m res)
  show ?case
  proof (cases "i < length imgs")
    case False
    then show ?thesis by (simp add: collect_loop.simps [of env h imgs i])
  next
    case True
    note lt = this
    have later: "\<And>j. Suc i \<le> j \<Longrightarrow> j < length imgs \<Longrightarrow> above_threshold (h (imgs ! j)) \<Longrightarrow> k \<noteq> img_id j"
      using "1.prems" by simp
    show ?thesis
    proof (cases "naturalWidth (h (imgs ! i)) \<le> 50 \<or> naturalHeight (h (imgs ! i)) \<le> 50")
      case True
      from "1.hyps"(1) [OF lt refl True later] lt True show ?thesis
        by (simp add: collect_loop.simps [of env h imgs i])
    next
      case False
      then have a: "above_threshold (h (imgs ! i))"
        by (auto simp: above_threshold_def)
      from "1.prems" [OF le_refl lt a] have ne: "k \<noteq> img_id i" .
      show ?thesis
      proof (cases "convertImageToBase64 env (src (h (imgs ! i)))")
        case (Resolved b)
        from "1.hyps"(2) [OF lt refl False Resolved later] lt False ne Resolved show ?thesis
          by (simp add: collect_loop.simps [of env h imgs i])
      next
        case (Rejected e)
        from "1.hyps"(3) [OF lt refl False Rejected later] lt False ne Rejected show ?thesis
          by (simp add: collect_loop.simps [of env h imgs i])
      qed
    qed
  qed
qed

text \<open>
  An image above the threshold gets its entry, whatever its conversion does, and no
  later iteration takes the entry away.
\<close>

lemma collect_loop_map_new:
  "i \<le> j \<Longrightarrow> j < length imgs \<Longrightarrow> above_threshold (h (imgs ! j)) \<Longrightarrow>
   fst (collect_loop env h imgs i (m, res)) (img_id j) = Some (imgs ! j)"
proof (induction env h imgs i "(m, res)" arbitrary: m res rule: collect_loop.induct)
  case (1 env h imgs i m res)
  from "1.prems" have lt: "i < length imgs" by simp
  show ?case
  proof (cases "j = i")
    case True
    have keep: "\<And>m' res'. fst (collect_loop env h imgs (Suc i) (m', res')) (img_id i) = m' (img_id i)"
      by (rule collect_loop_map_other) (simp add: img_id_inj)
    from "1.prems" True
    have a: "\<not> (naturalWidth (h (imgs ! i)) \<le> 50 \<or> naturalHeight (h (imgs ! i)) \<le> 50)"
      by (auto simp: above_threshold_def)
    show ?thesis
    proof (cases "convertImageToBase64 env (src (h (imgs ! i)))")
      case (Resolved b)
      with lt a True show ?thesis
        by (simp add: collect_loop.simps [of env h imgs i] keep)
    next
      case (Rejected e)
      with lt a True show ?thesis
        by (simp add: collect_loop.simps [of env h imgs i] keep)
    qed
  next
    case False
    with "1.prems" have le: "Suc i \<le> j" by simp
    show ?thesis
    proof (cases "naturalWidth (h (imgs ! i)) \<le> 50 \<or> naturalHeight (h (imgs ! i)) \<le> 50")
      case True
      from "1.hyps"(1) [OF lt refl True le "1.prems"(2,3)] lt True show ?thesis
        by (simp add: collect_loop.simps [of env h imgs i])
    next
      case False
      show ?thesis
      proof (cases "convertImageToBase64 env (src (h (imgs ! i)))")
        case (Resolved b)
        from "1.hyps"(2) [OF lt refl False Resolved le "1.prems"(2,3)] lt False Resolved
        show ?thesis
          by (simp add: collect_loop.simps [of env h imgs i])
      next
        case (Rejected e)
        from "1.hyps"(3) [OF lt refl False Rejected le "1.prems"(2,3)] lt False Rejected
        show ?thesis
          by (simp add: collect_loop.simps [of env h imgs i])
      qed
    qed
  qed
qed

section \<open>The Scanner\<close>

lemma collectImageData_map:
  "imageReferenceMap (fst (collectImageData env p)) =
     fst (collect_loop env (elements p) (document p) 0 (imageReferenceMap p, []))"
  by (simp add: collectImageData_def case_prod_beta)

lemma collectImageData_results:
  "snd (collectImageData env p) =
     [IMAGES_FOUND (map (descriptor_at env (elements p) (document p)) (scanned_indices env p))]"
  by (simp add: collectImageData_def case_prod_beta collect_loop_results scanned_indices_def)

lemma d_id_descriptor_at: "map d_id (map (descriptor_at env h imgs) js) = map img_id js"
  by (simp add: descriptor_at_def)

text \<open>Unfolding the Scanner on the example inputs.\<close>

lemmas scan_example =
  collectImageData_def collect_loop.simps convertImageToBase64_def example_page_def
  example_elements_def online_def offline_for_def img_id_def
  string_of_nat.simps digit_chars_def

lemma scanned_page_eq:
  "scanned_page =
     \<lparr>elements = example_elements, document = [0, 1, 2],
      imageReferenceMap = [''img-0'' \<mapsto> 0, ''img-2'' \<mapsto> 2]\<rparr>"
  by (simp add: scanned_page_def scan_example)

text \<open>
  C2, as the code has it. The Scanner sends one message, and its sequence holds exactly
  one descriptor for each image of the document whose width and height both exceed 50
  and whose conversion resolved: the descriptor of index \<open>i\<close> has the identifier
  \<open>img-i\<close>, the descriptors follow the order of the document, and no identifier occurs
  twice. An image at or below the threshold in either dimension has no descriptor, and
  neither has an image above the threshold whose conversion was rejected.
\<close>

theorem scanner_descriptors:
  "\<exists>results. snd (collectImageData env p) = [IMAGES_FOUND results] \<and>
     results = map (descriptor_at env (elements p) (document p)) (scanned_indices env p) \<and>
     map d_id results = map img_id (scanned_indices env p) \<and>
     distinct (map d_id results) \<and>
     distinct (scanned_indices env p) \<and>
     set (scanned_indices env p) =
       {i. i < length (document p) \<and> above_threshold (elements p (document p ! i)) \<and>
           converts env (elements p (document p ! i))}"
proof -
  let ?results = "map (descriptor_at env (elements p) (document p)) (scanned_indices env p)"
  have d: "distinct (scanned_indices env p)"
    by (simp add: scanned_indices_def)
  have s: "set (scanned_indices env p) =
       {i. i < length (document p) \<and> above_threshold (elements p (document p ! i)) \<and>
           converts env (elements p (document p ! i))}"
    by (auto simp: scanned_indices_def)
  from d have "distinct (map d_id ?results)"
    unfolding d_id_descriptor_at by (rule distinct_img_ids)
  with collectImageData_results [of env p] d_id_descriptor_at d s show ?thesis
    by blast
qed

text \<open>
  The example of the specification: of three images of 100 x 100, 30 x 30 and 60 x 60
  that all convert, the Scanner emits the descriptors \<open>img-0\<close> and \<open>img-2\<close>.
\<close>

theorem scanner_descriptors_witness:
  "\<exists>results. snd (collectImageData online example_page) = [IMAGES_FOUND results] \<and>
     map d_id results = [''img-0'', ''img-2'']"
proof -
  have idx: "scanned_indices online example_page = [0, 2]"
    by (simp add: scanned_indices_def above_threshold_def converts_def convertImageToBase64_def
        example_page_def example_elements_def online_def upt_rec)
  have ids: "map img_id [0, 2] = [''img-0'', ''img-2'']"
    by (simp add: img_id_0 img_id_2)
  from scanner_descriptors [of online example_page] show ?thesis
    unfolding idx ids by auto
qed

text \<open>
  C2 as it is stated fails: the first image of the example is 100 x 100, yet when its
  fetch is rejected the emitted sequence has no descriptor \<open>img-0\<close>.
\<close>

theorem scanner_failed_fetch_counterexample:
  "above_threshold (elements example_page (document example_page ! 0)) \<and>
   snd (collectImageData (offline_for ''a.png'') example_page) =
     [IMAGES_FOUND [\<lparr>d_id = ''img-2'', data = JString (data_url ''c.png'')\<rparr>]]"
  by (simp add: scan_example above_threshold_def)

text \<open>
  Failure isolation, for a conversion that is rejected (the fetch or the reading of the
  body): the image at index \<open>k\<close> is left out, and the one message carries the
  descriptors of all the other images that are above the threshold and convert.
\<close>

lemma scanner_isolates_rejection:
  assumes "convertImageToBase64 env (src (elements p (document p ! k))) = Rejected err"
  shows "snd (collectImageData env p) =
     [IMAGES_FOUND (map (descriptor_at env (elements p) (document p))
        (filter (\<lambda>i. i \<noteq> k \<and> above_threshold (elements p (document p ! i)) \<and>
                    converts env (elements p (document p ! i)))
           [0..<length (document p)]))]"
proof -
  have "scanned_indices env p =
        filter (\<lambda>i. i \<noteq> k \<and> above_threshold (elements p (document p ! i)) \<and>
                    converts env (elements p (document p ! i))) [0..<length (document p)]"
    unfolding scanned_indices_def using assms
    by (intro filter_cong refl) (auto simp: converts_def)
  then show ?thesis by (simp add: collectImageData_results)
qed

text \<open>
  C5, at the inputs where the code departs from it. First, the encoding of the first
  image fails: \<open>FileReader\<close> cannot read its blob, and \<open>reader.result\<close> is \<open>null\<close>
  when \<open>loadend\<close> fires. The promise of \<open>convertImageToBase64\<close> has no \<open>reject\<close>,
  so it resolves with \<open>null\<close>, the \<open>catch\<close> block is not entered, and the entry of
  the failed image is sent with \<open>data: null\<close> instead of being left out. Second, the
  fetch of the first image is answered with an error status: \<open>response.ok\<close> is not
  read, and the entry of the failed image is sent with the encoded error page. In both
  runs the other image is still described and one message is still sent.
\<close>

theorem scanner_reader_error_not_omitted:
  "above_threshold (elements example_page (document example_page ! 0)) \<and>
   reader_result (unreadable_for ''a.png'') ''a.png'' = JNull \<and>
   snd (collectImageData (unreadable_for ''a.png'') example_page) =
     [IMAGES_FOUND [\<lparr>d_id = ''img-0'', data = JNull\<rparr>,
                    \<lparr>d_id = ''img-2'', data = JString (data_url ''c.png'')\<rparr>]] \<and>
   fetch (forbidden_for ''a.png'') ''a.png'' =
     Resolved \<lparr>ok = False, blob = Resolved ''403 Forbidden''\<rparr> \<and>
   snd (collectImageData (forbidden_for ''a.png'') example_page) =
     [IMAGES_FOUND [\<lparr>d_id = ''img-0'', data = JString (data_url ''403 Forbidden'')\<rparr>,
                    \<lparr>d_id = ''img-2'', data = JString (data_url ''c.png'')\<rparr>]]"
  by (simp add: scan_example unreadable_for_def forbidden_for_def above_threshold_def)

text \<open>
  C9. The map entry is written before the conversion is awaited: after a run, every
  image above the threshold has its entry \<open>img-i\<close>, whether its conversion resolved or
  was rejected. Every emitted identifier is a key of the map, and there is a run where
  the keys are a strict superset of the emitted identifiers.
\<close>

theorem scanner_map_before_fetch:
  "(\<forall>i < length (document p). above_threshold (elements p (document p ! i)) \<longrightarrow>
      imageReferenceMap (fst (collectImageData env p)) (img_id i) = Some (document p ! i)) \<and>
   (\<forall>results. snd (collectImageData env p) = [IMAGES_FOUND results] \<longrightarrow>
      set (map d_id results) \<subseteq> dom (imageReferenceMap (fst (collectImageData env p)))) \<and>
   (\<exists>env' p' results. snd (collectImageData env' p') = [IMAGES_FOUND results] \<and>
      set (map d_id results) \<subset> dom (imageReferenceMap (fst (collectImageData env' p'))))"
proof (intro conjI allI impI)
  fix i assume "i < length (document p)" and "above_threshold (elements p (document p ! i))"
  then show "imageReferenceMap (fst (collectImageData env p)) (img_id i) = Some (document p ! i)"
    by (simp add: collectImageData_map collect_loop_map_new)
next
  fix results assume "snd (collectImageData env p) = [IMAGES_FOUND results]"
  then have r: "map d_id results = map img_id (scanned_indices env p)"
    by (auto simp: collectImageData_results descriptor_at_def)
  show "set (map d_id results) \<subseteq> dom (imageReferenceMap (fst (collectImageData env p)))"
    unfolding r
    by (auto simp: scanned_indices_def collectImageData_map collect_loop_map_new)
next
  have "snd (collectImageData (offline_for ''a.png'') example_page) =
          [IMAGES_FOUND [\<lparr>d_id = ''img-2'', data = JString (data_url ''c.png'')\<rparr>]]"
    by (simp add: scan_example)
  moreover have "set (map d_id [\<lparr>d_id = ''img-2'', data = JString (data_url ''c.png'')\<rparr>])
      \<subset> dom (imageReferenceMap (fst (collectImageData (offline_for ''a.png'') example_page)))"
    by (auto simp: scan_example)
  ultimately show "\<exists>env' p' results. snd (collectImageData env' p') = [IMAGES_FOUND results] \<and>
      set (map d_id results) \<subset> dom (imageReferenceMap (fst (collectImageData env' p')))"
    by blast
qed

text \<open>
  On the example page with the fetch of the first image rejected, the first image is
  above the threshold, its conversion fails, and the map holds it under \<open>img-0\<close>.
\<close>

theorem scanner_map_before_fetch_witness:
  "0 < length (document example_page) \<and>
   above_threshold (elements example_page (document example_page ! 0)) \<and>
   convertImageToBase64 (offline_for ''a.png'')
     (src (elements example_page (document example_page ! 0))) = Rejected NetworkError \<and>
   imageReferenceMap (fst (collectImageData (offline_for ''a.png'') example_page)) (img_id 0) = Some 0"
proof -
  have a: "0 < length (document example_page)"
    and b: "above_threshold (elements example_page (document example_page ! 0))"
    and c: "convertImageToBase64 (offline_for ''a.png'')
      (src (elements example_page (document example_page ! 0))) = Rejected NetworkError"
    and d: "document example_page ! 0 = 0"
    by (simp_all add: example_page_def example_elements_def above_threshold_def
        convertImageToBase64_def offline_for_def)
  from scanner_map_before_fetch [of example_page "offline_for ''a.png''"] a b
  have "imageReferenceMap (fst (collectImageData (offline_for ''a.png'') example_page)) (img_id 0)
        = Some (document example_page ! 0)"
    by blast
  with a b c d show ?thesis by simp
qed

text \<open>
  C4, as the code has it. The map is a global that no run clears. A run of the Scanner
  keeps the entry of every key that is not the identifier of an image above the
  threshold in the current document, sets \<open>img-i\<close> to the image at index \<open>i\<close> for
  each image above the threshold, and so never loses a key: entries of earlier cycles
  stay until a later cycle overwrites them.
\<close>

theorem scanner_map_accumulates:
  "(\<forall>k. (\<forall>i < length (document p). above_threshold (elements p (document p ! i)) \<longrightarrow> k \<noteq> img_id i) \<longrightarrow>
        imageReferenceMap (fst (collectImageData env p)) k = imageReferenceMap p k) \<and>
   (\<forall>i < length (document p). above_threshold (elements p (document p ! i)) \<longrightarrow>
        imageReferenceMap (fst (collectImageData env p)) (img_id i) = Some (document p ! i)) \<and>
   dom (imageReferenceMap p) \<subseteq> dom (imageReferenceMap (fst (collectImageData env p)))"
proof -
  let ?m' = "imageReferenceMap (fst (collectImageData env p))"
  have keep: "?m' k = imageReferenceMap p k"
    if "\<forall>i < length (document p). above_threshold (elements p (document p ! i)) \<longrightarrow> k \<noteq> img_id i"
    for k
    unfolding collectImageData_map using that by (intro collect_loop_map_other) simp
  have new: "?m' (img_id i) = Some (document p ! i)"
    if "i < length (document p)" "above_threshold (elements p (document p ! i))" for i
    using that by (simp add: collectImageData_map collect_loop_map_new)
  have "k \<in> dom ?m'" if "k \<in> dom (imageReferenceMap p)" for k
  proof (cases "\<forall>i < length (document p). above_threshold (elements p (document p ! i)) \<longrightarrow> k \<noteq> img_id i")
    case True
    from keep [OF True] that show ?thesis by (simp add: dom_def)
  next
    case False
    then obtain i where "i < length (document p)"
      "above_threshold (elements p (document p ! i))" "k = img_id i"
      by blast
    with new [of i] show ?thesis by (simp add: dom_def)
  qed
  with keep new show ?thesis by blast
qed

text \<open>
  A second cycle on the example page, after the first two images have left the
  document: the third image is now at index 0. The entry \<open>img-2\<close> of the first cycle
  is still there after the second, and \<open>img-0\<close> now names the same element.
\<close>

theorem scanner_map_accumulates_witness:
  "imageReferenceMap second_cycle_page ''img-2'' = Some 2 \<and>
   imageReferenceMap (fst (collectImageData online second_cycle_page)) ''img-2'' = Some 2 \<and>
   imageReferenceMap (fst (collectImageData online second_cycle_page)) ''img-0'' = Some 2"
proof -
  have doc: "document second_cycle_page = [2]"
    and old: "imageReferenceMap second_cycle_page ''img-2'' = Some 2"
    and big: "above_threshold (elements second_cycle_page 2)"
    by (simp_all add: second_cycle_page_def scanned_page_eq example_elements_def above_threshold_def)
  from scanner_map_accumulates [of second_cycle_page online] doc old big img_id_0 show ?thesis
    by simp
qed

text \<open>
  C4 as it is stated fails: when the second cycle starts, the map still holds the entry
  \<open>img-0\<close> of the first; and after a second cycle on a document without images, which
  writes nothing, the entry is there all the same.
\<close>

theorem map_survives_cycle_counterexample:
  "imageReferenceMap scanned_page ''img-0'' = Some 0 \<and>
   imageReferenceMap
     (fst (content_onMessage online START_TRANSLATION (scanned_page\<lparr>document := []\<rparr>)))
     ''img-0'' = Some 0"
  by (simp add: scanned_page_eq content_onMessage_def collectImageData_def collect_loop.simps)

section \<open>The DOM Updater\<close>

lemma replace_item_at:
  "replace_item m item h el =
     (if m (r_id item) = Some el \<and> truthy (translatedData item)
      then (h el)\<lparr>src := ToString (translatedData item)\<rparr> else h el)"
  by (simp add: replace_item_def split: option.split)

lemma replace_item_noop:
  "m (r_id item) = None \<or> \<not> truthy (translatedData item) \<Longrightarrow> replace_item m item h = h"
  by (auto simp: replace_item_def split: option.split)

text \<open>
  After the \<open>forEach\<close>, an element has the source that the sequence assigned to it
  last, and is as it was when the sequence assigned none.
\<close>

lemma fold_replace_item:
  "fold (replace_item m) items h el =
     (case last_write m items el of None \<Rightarrow> h el | Some s \<Rightarrow> (h el)\<lparr>src := s\<rparr>)"
proof (induction items arbitrary: h)
  case Nil
  show ?case by simp
next
  case (Cons item items)
  have "fold (replace_item m) (item # items) h el =
        fold (replace_item m) items (replace_item m item h) el"
    by simp
  also have "\<dots> = (case last_write m items el of
                       None \<Rightarrow> replace_item m item h el
                     | Some s \<Rightarrow> (replace_item m item h el)\<lparr>src := s\<rparr>)"
    by (rule Cons.IH)
  also have "\<dots> = (case last_write m (item # items) el of
                       None \<Rightarrow> h el
                     | Some s \<Rightarrow> (h el)\<lparr>src := s\<rparr>)"
    unfolding replace_item_at by (simp split: option.split)
  finally show ?case .
qed

lemma last_write_append:
  "last_write m (xs @ ys) el =
     (case last_write m ys el of Some s \<Rightarrow> Some s | None \<Rightarrow> last_write m xs el)"
  by (induction xs) (simp_all split: option.split)

lemma last_write_SomeD:
  "last_write m items el = Some s \<Longrightarrow>
   \<exists>x \<in> set items. m (r_id x) = Some el \<and> truthy (translatedData x) \<and>
      s = ToString (translatedData x)"
  by (induction items) (auto split: option.splits if_splits)

text \<open>
  C1, as the code has it. A Processed Result whose identifier maps to an element and
  whose \<open>translatedData\<close> is a non-empty string leaves that element with exactly this
  string as its source, provided no later entry of the same sequence assigns a
  different payload to the same element (under the same or another identifier).
\<close>

theorem replaceImages_round_trip:
  assumes "imageReferenceMap p (r_id item) = Some el"
    and "translatedData item = JString payload" and "payload \<noteq> []"
    and "\<forall>x \<in> set after. imageReferenceMap p (r_id x) = Some el \<and> truthy (translatedData x)
           \<longrightarrow> translatedData x = translatedData item"
  shows "src (elements (replaceImages (before @ item # after) p) el) = payload"
proof -
  let ?m = "imageReferenceMap p"
  have "last_write ?m (item # after) el = Some payload"
  proof (cases "last_write ?m after el")
    case None
    with assms(1-3) show ?thesis by simp
  next
    case (Some s)
    from last_write_SomeD [OF Some] assms(2,4) have "s = payload" by auto
    with Some show ?thesis by simp
  qed
  then have lw: "last_write ?m (before @ item # after) el = Some payload"
    by (simp add: last_write_append)
  have "src (fold (replace_item ?m) (before @ item # after) (elements p) el) = payload"
    unfolding fold_replace_item lw by simp
  then show ?thesis
    by (simp add: replaceImages_def)
qed

text \<open>
  On the scanned example page: the entry for \<open>img-0\<close> gives the first image the source
  \<open>X\<close>, among an entry with an unknown identifier and a later entry without data; and,
  as in the specification's example, the reply \<open>[{id: "img-0", translatedData: "X"}]\<close>
  leaves the third image untouched.
\<close>

theorem replaceImages_round_trip_witness:
  "imageReferenceMap scanned_page ''img-0'' = Some 0 \<and>
   src (elements (replaceImages
     [\<lparr>r_id = ''img-7'', translatedData = JString ''Z''\<rparr>,
      \<lparr>r_id = ''img-0'', translatedData = JString ''X''\<rparr>,
      \<lparr>r_id = ''img-0'', translatedData = JNull\<rparr>] scanned_page) 0) = ''X'' \<and>
   src (elements (replaceImages
     [\<lparr>r_id = ''img-0'', translatedData = JString ''X''\<rparr>] scanned_page) 2) = ''c.png''"
proof -
  have m: "imageReferenceMap scanned_page ''img-0'' = Some 0"
    by (simp add: scanned_page_eq)
  have "src (elements (replaceImages
     ([\<lparr>r_id = ''img-7'', translatedData = JString ''Z''\<rparr>] @
      \<lparr>r_id = ''img-0'', translatedData = JString ''X''\<rparr> #
      [\<lparr>r_id = ''img-0'', translatedData = JNull\<rparr>]) scanned_page) 0) = ''X''"
    by (rule replaceImages_round_trip) (simp_all add: m)
  moreover have "src (elements (replaceImages
     [\<lparr>r_id = ''img-0'', translatedData = JString ''X''\<rparr>] scanned_page) 2) = ''c.png''"
    by (simp add: scanned_page_eq replaceImages_def replace_item_def example_elements_def)
  ultimately show ?thesis using m by simp
qed

text \<open>
  C1 as it is stated fails: the first entry maps to the first image and carries the
  payload \<open>X\<close>, but the sequence has a second entry for the same image, and the
  source is \<open>Y\<close> when the Updater is done.
\<close>

theorem replaceImages_overwritten_counterexample:
  "imageReferenceMap scanned_page (r_id \<lparr>r_id = ''img-0'', translatedData = JString ''X''\<rparr>) = Some 0 \<and>
   truthy (translatedData \<lparr>r_id = ''img-0'', translatedData = JString ''X''\<rparr>) \<and>
   src (elements (replaceImages
     [\<lparr>r_id = ''img-0'', translatedData = JString ''X''\<rparr>,
      \<lparr>r_id = ''img-0'', translatedData = JString ''Y''\<rparr>] scanned_page) 0) = ''Y''"
  by (simp add: scanned_page_eq replaceImages_def replace_item_def)

text \<open>
  C7. A Processed Result whose identifier is not in the reference map, or whose
  \<open>translatedData\<close> is \<open>null\<close> (or absent), changes nothing: alone it leaves the page
  as it is, and inside any sequence the page ends as if the entry were not there.
\<close>

theorem replaceImages_ignores_unknown_or_null:
  assumes "imageReferenceMap p (r_id item) = None \<or> translatedData item = JNull \<or>
           translatedData item = JUndefined"
  shows "replaceImages [item] p = p \<and>
         replaceImages (before @ item # after) p = replaceImages (before @ after) p"
proof -
  from assms have "\<And>h. replace_item (imageReferenceMap p) item h = h"
    by (auto intro: replace_item_noop)
  then show ?thesis by (simp add: replaceImages_def)
qed

text \<open>
  On the scanned example page, \<open>img-7\<close> is no key of the map: an entry for it, and an
  entry for \<open>img-0\<close> with \<open>null\<close>, leave the page as it is.
\<close>

theorem replaceImages_ignores_unknown_or_null_witness:
  "imageReferenceMap scanned_page ''img-7'' = None \<and>
   replaceImages [\<lparr>r_id = ''img-7'', translatedData = JString ''X''\<rparr>] scanned_page = scanned_page \<and>
   replaceImages [\<lparr>r_id = ''img-0'', translatedData = JNull\<rparr>] scanned_page = scanned_page"
proof -
  have m: "imageReferenceMap scanned_page ''img-7'' = None"
    by (simp add: scanned_page_eq)
  from replaceImages_ignores_unknown_or_null
         [of scanned_page "\<lparr>r_id = ''img-7'', translatedData = JString ''X''\<rparr>"]
       replaceImages_ignores_unknown_or_null
         [of scanned_page "\<lparr>r_id = ''img-0'', translatedData = JNull\<rparr>"] m
  show ?thesis by simp
qed

text \<open>
  C8. Replaying a sequence of Processed Results on the page it has produced changes
  nothing more: \<open>replaceImages\<close> is idempotent.
\<close>

theorem replaceImages_idempotent:
  "replaceImages translatedImages (replaceImages translatedImages p) =
   replaceImages translatedImages p"
proof -
  let ?m = "imageReferenceMap p"
  have "fold (replace_item ?m) translatedImages
          (fold (replace_item ?m) translatedImages (elements p))
        = fold (replace_item ?m) translatedImages (elements p)"
    by (rule ext) (simp add: fold_replace_item split: option.split)
  then show ?thesis by (simp add: replaceImages_def)
qed

text \<open>A sequence that writes the same image twice, applied twice: the source is \<open>Y\<close>.\<close>

theorem replaceImages_idempotent_witness:
  "src (elements (replaceImages
     [\<lparr>r_id = ''img-0'', translatedData = JString ''X''\<rparr>,
      \<lparr>r_id = ''img-0'', translatedData = JString ''Y''\<rparr>]
     (replaceImages
        [\<lparr>r_id = ''img-0'', translatedData = JString ''X''\<rparr>,
         \<lparr>r_id = ''img-0'', translatedData = JString ''Y''\<rparr>] scanned_page)) 0) = ''Y''"
proof -
  have "src (elements (replaceImages
     [\<lparr>r_id = ''img-0'', translatedData = JString ''X''\<rparr>,
      \<lparr>r_id = ''img-0'', translatedData = JString ''Y''\<rparr>] scanned_page) 0) = ''Y''"
    by (simp add: scanned_page_eq replaceImages_def replace_item_def)
  then show ?thesis
    by (simp only: replaceImages_idempotent)
qed

text \<open>
  C10. The Updater writes a source only when \<open>translatedData\<close> is truthy: a step that
  changes the store had truthy data. The empty string is falsy, so an entry that carries
  it is a no-op, for the step, alone, and inside any sequence.
\<close>

theorem replaceImages_empty_string_noop:
  "(replace_item m item h \<noteq> h \<longrightarrow> truthy (translatedData item)) \<and>
   (translatedData item = JString [] \<longrightarrow>
      replace_item m item h = h \<and> replaceImages [item] p = p \<and>
      replaceImages (before @ item # after) p = replaceImages (before @ after) p)"
proof -
  have a: "replace_item m item h \<noteq> h \<longrightarrow> truthy (translatedData item)"
    using replace_item_noop [of m item h] by blast
  have b: "replace_item m' item h' = h'" if "translatedData item = JString []" for m' h'
    using that by (simp add: replace_item_noop)
  from a b show ?thesis by (simp add: replaceImages_def)
qed

text \<open>
  On the scanned example page, \<open>img-0\<close> maps to the first image; an entry for it with
  the empty string leaves the page, and the source \<open>a.png\<close> of the image, as they are.
\<close>

theorem replaceImages_empty_string_noop_witness:
  "imageReferenceMap scanned_page ''img-0'' = Some 0 \<and>
   replaceImages [\<lparr>r_id = ''img-0'', translatedData = JString []\<rparr>] scanned_page = scanned_page \<and>
   src (elements (replaceImages
     [\<lparr>r_id = ''img-0'', translatedData = JString []\<rparr>] scanned_page) 0) = ''a.png''"
proof -
  have m: "imageReferenceMap scanned_page ''img-0'' = Some 0"
    and s: "src (elements scanned_page 0) = ''a.png''"
    by (simp_all add: scanned_page_eq example_elements_def)
  from replaceImages_empty_string_noop
         [of _ "\<lparr>r_id = ''img-0'', translatedData = JString []\<rparr>" _ scanned_page]
  have "replaceImages [\<lparr>r_id = ''img-0'', translatedData = JString []\<rparr>] scanned_page = scanned_page"
    by simp
  with m s show ?thesis by simp
qed

section \<open>The Relay\<close>

text \<open>
  C6. A Relay invocation with an empty descriptor sequence has no effect at all: in
  particular no request goes to the processing endpoint, whether the Relay is called
  directly or through the listener of the background script.
\<close>

theorem relay_empty_no_request:
  "sendImagesToPythonServer fetch_post [] tabId = [] \<and>
   background_onMessage fetch_post (IMAGES_FOUND []) tabId = []"
  by (simp add: sendImagesToPythonServer_def background_onMessage_def)

text \<open>
  A rejected \<open>fetch\<close> (a network error) and a rejected \<open>response.json()\<close> (a body that
  is not JSON) are caught: the request is the only effect.
\<close>

lemma relay_swallows_rejections:
  assumes "fetch_post images = Rejected err \<or>
           (\<exists>response. fetch_post images = Resolved response \<and> json response = Rejected err)"
  shows "sendImagesToPythonServer fetch_post images tabId =
           (if images = [] then [] else [HttpPost process_images_url images])"
  using assms by (auto simp: sendImagesToPythonServer_def)

text \<open>
  C3, at the input where the code departs from it. The server answers with status 500
  and a body that is JSON. \<open>fetch\<close> resolves, the Relay never looks at
  \<open>response.ok\<close> or the status, \<open>response.json()\<close> resolves, and the
  \<open>REPLACE_IMAGES\<close> message goes to the tab.
\<close>

theorem relay_forwards_error_status:
  "error_server [\<lparr>d_id = ''img-0'', data = JString ''data:,''\<rparr>] =
     Resolved \<lparr>status = 500,
               json = Resolved [\<lparr>r_id = ''img-0'', translatedData = JString ''X''\<rparr>]\<rparr> \<and>
   sendImagesToPythonServer error_server [\<lparr>d_id = ''img-0'', data = JString ''data:,''\<rparr>] 7 =
     [HttpPost process_images_url [\<lparr>d_id = ''img-0'', data = JString ''data:,''\<rparr>],
      TabsSendMessage 7 (REPLACE_IMAGES [\<lparr>r_id = ''img-0'', translatedData = JString ''X''\<rparr>])]"
  by (simp add: sendImagesToPythonServer_def error_server_def)

end
